theory Spec2Isabelle
  imports Main "HOL-Library.Multiset"
begin

section \<open>The vocabulary game of flask\_vocab.py\<close>

text \<open>
  Python strings are sequences of code points. The model is polymorphic in the type
  \<open>'c\<close> of a character, so a string is a \<open>'c list\<close>; the concrete examples use
  \<open>char\<close>.
\<close>

datatype py_error =
  KeyError | AssertionError | InvalidArgument | LoadError | ValueError | TypeError | OverflowError

subsection \<open>LetterBag\<close>

text \<open>
  Modelled from the spec: the class LetterBag of src/letterbag.py, which is imported by
  flask\_vocab.py but is not among the source files. The spec (section 3 and 4.1)
  describes it as a mapping from character to count, built from a string, with a
  containment query that compares, for every character of the candidate, the count in the
  candidate with the count in the bag; a character that is not a key counts zero.
\<close>

type_synonym 'c letterbag = "'c \<rightharpoonup> nat"

text \<open>
  Modelled from the spec: counting one more occurrence of a character, the step that
  builds the bag of a string (src/letterbag.py is missing).
\<close>

definition add_letter :: "'c letterbag \<Rightarrow> 'c \<Rightarrow> 'c letterbag" where
  "add_letter bag c = bag(c \<mapsto> (case bag c of None \<Rightarrow> 1 | Some n \<Rightarrow> Suc n))"

text \<open>
  Modelled from the spec: the constructor of LetterBag (src/letterbag.py is missing); the
  count of a character in the bag is the number of its occurrences in the string.
\<close>

definition LetterBag :: "'c list \<Rightarrow> 'c letterbag" where
  "LetterBag s = foldl add_letter Map.empty s"

text \<open>
  Modelled from the spec: the count of a character in a bag (src/letterbag.py is
  missing); a character that is not a key has count 0.
\<close>

definition letter_count :: "'c letterbag \<Rightarrow> 'c \<Rightarrow> nat" where
  "letter_count bag c = (case bag c of None \<Rightarrow> 0 | Some n \<Rightarrow> n)"

text \<open>
  Modelled from the spec: LetterBag.contains (src/letterbag.py is missing); every
  character of the candidate must occur in the bag at least as often as in the candidate.
\<close>

definition contains :: "'c letterbag \<Rightarrow> 'c list \<Rightarrow> bool" where
  "contains bag candidate =
     (let other = LetterBag candidate
      in list_all (\<lambda>c. letter_count other c \<le> letter_count bag c) candidate)"

subsection \<open>Vocab\<close>

text \<open>
  Modelled from the spec: the class Vocab of src/vocab.py, which flask\_vocab.py imports
  and which is not among the source files. By sections 3, 4.2 and 6 of the spec a
  vocabulary is an ordered sequence of distinct normalized words; it is built from the
  lines of a source, blank lines and comment lines are skipped, and loading fails with a
  LoadError when the source cannot be read or yields no word. The spec leaves the
  normalization and the comment marker open, so both are arguments of the loader. The
  source is \<open>None\<close> when it cannot be read and \<open>Some lines\<close> otherwise. The
  vocabulary keeps the normalization it was loaded with and applies it to every query.
\<close>

record 'c Vocab =
  words :: "'c list list"
  normalise :: "'c list \<Rightarrow> 'c list"

text \<open>
  Modelled from the spec: the constructor of Vocab (LoadVocabulary in section 6;
  src/vocab.py is missing). Every line is normalized; blank lines and comment lines are
  dropped, and so are repetitions of a word.
\<close>

definition LoadVocabulary ::
  "('c list \<Rightarrow> 'c list) \<Rightarrow> ('c list \<Rightarrow> bool) \<Rightarrow> 'c list list option \<Rightarrow> py_error + 'c Vocab" where
  "LoadVocabulary nrm is_comment source =
     (case source of
        None \<Rightarrow> Inl LoadError
      | Some lines \<Rightarrow>
          (let entries = filter (\<lambda>w. w \<noteq> [] \<and> \<not> is_comment w) (map nrm lines);
               ws = remdups entries
           in if ws = [] then Inl LoadError
              else Inr \<lparr>words = ws, normalise = nrm\<rparr>))"

text \<open>
  Modelled from the spec: Vocab.has (src/vocab.py is missing); the normalized query must
  equal a word of the vocabulary.
\<close>

definition has :: "'c Vocab \<Rightarrow> 'c list \<Rightarrow> bool" where
  "has v word = (normalise v word \<in> set (words v))"

text \<open>
  Modelled from the spec: Vocab.as\_list (src/vocab.py is missing); the words in their
  stored order.
\<close>

definition as_list :: "'c Vocab \<Rightarrow> 'c list list" where
  "as_list v = words v"

subsection \<open>The jumble generator\<close>

text \<open>
  Modelled from the spec: the pseudo-random source used by the generator. The spec fixes
  no generator, so it is a parameter: \<open>from_seed\<close> builds the generator state for a
  seed and \<open>next_draw\<close> returns the next number together with the next state.
\<close>

record 'g random_source =
  from_seed :: "int \<Rightarrow> 'g"
  next_draw :: "'g \<Rightarrow> nat \<times> 'g"

text \<open>
  Modelled from the spec: drawing \<open>n\<close> items without replacement from a pool, one
  draw of the random source for each item. Section 4.3 of the spec asks for a choice of
  distinct words and for a random permutation of the combined letters, both from the same
  source; a permutation is a draw of all items of the pool.
\<close>

fun pick :: "('g \<Rightarrow> nat \<times> 'g) \<Rightarrow> nat \<Rightarrow> 'a list \<Rightarrow> 'g \<Rightarrow> 'a list \<times> 'g" where
  "pick drw 0 pool g = ([], g)"
| "pick drw (Suc n) pool g =
     (if pool = [] then ([], g)
      else (case drw g of (r, g1) \<Rightarrow>
        (let i = r mod length pool in
         (case pick drw n (take i pool @ drop (Suc i) pool) g1 of
            (rest, g2) \<Rightarrow> (pool ! i # rest, g2)))))"

text \<open>
  Modelled from the spec: the function jumbled of src/jumble.py (GenerateJumble in the
  spec), which flask\_vocab.py calls and which is not among the source files. By section
  4.3 it requires \<open>1 \<le> target_count \<le> |vocabulary|\<close> and fails with InvalidArgument
  otherwise; it chooses the words first, then permutes their concatenated letters. With a
  seed the generator state is built from the seed; without one the ambient state \<open>g\<close>
  (seeded from a time source) is used. The state after the call is returned as well.
\<close>

definition jumbled ::
  "'g random_source \<Rightarrow> 'g \<Rightarrow> 'c list list \<Rightarrow> int \<Rightarrow> int option \<Rightarrow> py_error + ('c list \<times> 'g)" where
  "jumbled src g strings n seed =
     (if n < 1 \<or> int (length strings) < n then Inl InvalidArgument
      else
        (let g0 = (case seed of None \<Rightarrow> g | Some r \<Rightarrow> from_seed src r) in
         (case pick (next_draw src) (nat n) strings g0 of
            (selected, g1) \<Rightarrow>
              (let letters = concat selected
               in Inr (pick (next_draw src) (length letters) letters g1)))))"

text \<open>The jumble string of a result of the generator, without the generator state.\<close>

definition jumble_of :: "py_error + ('c list \<times> 'g) \<Rightarrow> py_error + 'c list" where
  "jumble_of r = (case r of Inl e \<Rightarrow> Inl e | Inr (j, g) \<Rightarrow> Inr j)"

subsection \<open>Globals of flask\_vocab.py\<close>

text \<open>
  CONFIG comes from src/config.py, which is not among the source files; only the
  attributes that flask\_vocab.py reads in the code modelled here are kept. Nothing in the
  source restricts what \<open>CONFIG.SEED\<close> is, so the type \<open>'v\<close> of its value is a
  parameter: any Python value.
\<close>

record 'v config =
  CONFIG_SEED :: 'v
  SUCCESS_AT_COUNT :: int

text \<open>
  Lines 34 to 38: \<open>SEED = int(CONFIG.SEED)\<close>, and \<open>None\<close> when that raises
  ValueError. Python's builtin \<open>int\<close> is the parameter \<open>py_int\<close>: it returns an
  integer or raises. Only ValueError is caught; any other exception leaves the module
  and no handler is ever served.
\<close>

definition init_SEED :: "('v \<Rightarrow> py_error + int) \<Rightarrow> 'v \<Rightarrow> py_error + int option" where
  "init_SEED py_int raw =
     (case py_int raw of
        Inr i \<Rightarrow> Inr (Some i)
      | Inl e \<Rightarrow> if e = ValueError then Inr None else Inl e)"

text \<open>
  The module's globals, together with the state of Python's random module, which a call
  of the generator without a seed reads and advances.
\<close>

record ('c, 'g, 'v) globals =
  CONFIG :: "'v config"
  WORDS :: "'c Vocab"
  SEED :: "int option"
  random_state :: 'g

text \<open>The session of one client: each key may be absent.\<close>

record 'c session =
  target_count :: "int option"
  jumble :: "'c list option"
  matches :: "'c list list option"

subsection \<open>index\<close>

text \<open>The argument \<open>None if not SEED or SEED < 0 else SEED\<close> of line 53.\<close>

definition seed_argument :: "int option \<Rightarrow> int option" where
  "seed_argument s =
     (case s of
        None \<Rightarrow> None
      | Some i \<Rightarrow> if i = 0 \<or> i < 0 then None else Some i)"

text \<open>Lines 50 and 51.\<close>

definition index_target_count :: "('c, 'g, 'v) globals \<Rightarrow> int" where
  "index_target_count gl =
     min (int (length (as_list (WORDS gl)))) (SUCCESS_AT_COUNT (CONFIG gl))"

text \<open>The call of lines 52 and 53.\<close>

definition index_jumbled :: "'g random_source \<Rightarrow> ('c, 'g, 'v) globals \<Rightarrow> py_error + ('c list \<times> 'g)" where
  "index_jumbled src gl =
     jumbled src (random_state gl) (as_list (WORDS gl)) (index_target_count gl)
       (seed_argument (SEED gl))"

definition index ::
  "'g random_source \<Rightarrow> ('c, 'g, 'v) globals \<Rightarrow> 'c session \<Rightarrow> py_error + ('c session \<times> ('c, 'g, 'v) globals)" where
  "index src gl sess =
     (let s1 = sess\<lparr>target_count := Some (index_target_count gl)\<rparr>
      in case index_jumbled src gl of
           Inl e \<Rightarrow> Inl e
         | Inr (j, g') \<Rightarrow>
             (let s2 = s1\<lparr>jumble := Some j\<rparr>;
                  s3 = s2\<lparr>matches := Some []\<rparr>
              in if matches s3 \<noteq> Some [] then Inl AssertionError
                 else if \<not> (0 < index_target_count gl) then Inl AssertionError
                 else Inr (s3, gl\<lparr>random_state := g'\<rparr>)))"

subsection \<open>check\<close>

text \<open>
  The four branches of check that return a response. The JSON response holds
  \<open>valid_word\<close> and \<open>success_count\<close> only; \<open>branch\<close> records which arm of the
  conditional of lines 100 to 124 produced it.
\<close>

datatype branch = Accept | Already_found | Not_vocab_word | Not_spellable

record outcome =
  branch :: branch
  valid_word :: bool
  success_count :: int

text \<open>
  The handler, for a request that carries the argument \<open>text\<close>. Reading
  \<open>session["jumble"]\<close> raises KeyError when the key is absent;
  \<open>session.get("matches", [])\<close> defaults to the empty list. Only the first branch
  appends to the list and stores it in the session.
\<close>

definition session_matches :: "'c session \<Rightarrow> 'c list list" where
  "session_matches sess = (case matches sess of None \<Rightarrow> [] | Some m \<Rightarrow> m)"

definition check ::
  "('c, 'g, 'v) globals \<Rightarrow> 'c list \<Rightarrow> 'c session \<Rightarrow> py_error + (outcome \<times> 'c session)" where
  "check gl text sess =
     (case jumble sess of
        None \<Rightarrow> Inl KeyError
      | Some jmbl \<Rightarrow>
          (let ms = session_matches sess;
               in_jumble = contains (LetterBag jmbl) text;
               matched = has (WORDS gl) text;
               n = SUCCESS_AT_COUNT (CONFIG gl)
           in if matched \<and> in_jumble \<and> \<not> (text \<in> set ms) then
                Inr (\<lparr>branch = Accept, valid_word = True, success_count = n\<rparr>,
                     sess\<lparr>matches := Some (ms @ [text])\<rparr>)
              else if text \<in> set ms then
                Inr (\<lparr>branch = Already_found, valid_word = False, success_count = n\<rparr>, sess)
              else if \<not> matched then
                Inr (\<lparr>branch = Not_vocab_word, valid_word = False, success_count = n\<rparr>, sess)
              else if \<not> in_jumble then
                Inr (\<lparr>branch = Not_spellable, valid_word = False, success_count = n\<rparr>, sess)
              else Inl AssertionError))"

subsection \<open>Concrete instances\<close>

text \<open>
  A small linear congruential generator on the numbers below 16, and the game of section 8
  of the spec: the vocabulary "act", "cat", "tack" with success threshold 3. They serve
  the concrete instances of the theorems; no theorem depends on them.
\<close>

definition lcg :: "nat random_source" where
  "lcg = \<lparr>from_seed = (\<lambda>r. nat \<bar>r\<bar> mod 16), next_draw = (\<lambda>g. (g, (5 * g + 3) mod 16))\<rparr>"

text \<open>
  Sample values of \<open>CONFIG.SEED\<close> for the concrete instances: \<open>None\<close>, an
  integer, a string that is the decimal literal of an integer, a string that is no
  integer literal, and a finite float \<open>m / 2 ^ e\<close> given by \<open>m\<close> and \<open>e\<close>.
\<close>

datatype cfg_value =
  CfgNone | CfgInt int | CfgNumeral int | CfgText string | CfgFloat int nat

text \<open>
  Python's \<open>int\<close> on the sample values: TypeError on \<open>None\<close>, the integer itself,
  the value of a literal, ValueError on a string that is no literal, and truncation
  towards zero of a float.
\<close>

definition cfg_int :: "cfg_value \<Rightarrow> py_error + int" where
  "cfg_int v =
     (case v of
        CfgNone \<Rightarrow> Inl TypeError
      | CfgInt i \<Rightarrow> Inr i
      | CfgNumeral i \<Rightarrow> Inr i
      | CfgText s \<Rightarrow> Inl ValueError
      | CfgFloat m e \<Rightarrow> Inr (if 0 \<le> m then m div 2 ^ e else - ((- m) div 2 ^ e)))"

definition game :: "(char, nat, cfg_value) globals" where
  "game = \<lparr>CONFIG = \<lparr>CONFIG_SEED = CfgNumeral 7, SUCCESS_AT_COUNT = 3\<rparr>,
            WORDS = \<lparr>words = [''act'', ''cat'', ''tack''], normalise = (\<lambda>w. w)\<rparr>,
            SEED = Some 7, random_state = 0\<rparr>"

definition fresh :: "char session" where
  "fresh = \<lparr>target_count = None, jumble = None, matches = None\<rparr>"

definition playing :: "string \<Rightarrow> string list \<Rightarrow> char session" where
  "playing j ms = \<lparr>target_count = Some 3, jumble = Some j, matches = Some ms\<rparr>"

text \<open>
  The game with another configured seed, the global SEED being what lines 34 to 38 make of
  it (for a value on which they complete).
\<close>

definition configured :: "cfg_value \<Rightarrow> (char, nat, cfg_value) globals" where
  "configured raw =
     game\<lparr>CONFIG := \<lparr>CONFIG_SEED = raw, SUCCESS_AT_COUNT = 3\<rparr>,
          SEED := (case init_SEED cfg_int raw of Inr s \<Rightarrow> s | Inl e \<Rightarrow> None)\<rparr>"

subsection \<open>Facts about LetterBag\<close>

lemma letter_count_add_letter:
  "letter_count (add_letter bag c) d = (if d = c then Suc (letter_count bag c) else letter_count bag d)"
  by (simp add: letter_count_def add_letter_def split: option.splits)

lemma letter_count_foldl:
  "letter_count (foldl add_letter bag s) c = letter_count bag c + count_list s c"
  by (induction s arbitrary: bag) (simp_all add: letter_count_add_letter)

lemma letter_count_LetterBag: "letter_count (LetterBag s) c = count_list s c"
proof -
  have "letter_count Map.empty c = 0"
    by (simp add: letter_count_def)
  then show ?thesis
    unfolding LetterBag_def by (simp only: letter_count_foldl)
qed

lemma contains_count_list:
  "contains (LetterBag s) candidate \<longleftrightarrow> (\<forall>c\<in>set candidate. count_list candidate c \<le> count_list s c)"
  by (simp add: contains_def letter_count_LetterBag list_all_iff)

lemma contains_mset: "contains (LetterBag s) candidate \<longleftrightarrow> mset candidate \<subseteq># mset s"
proof -
  have "(\<forall>c\<in>set candidate. count_list candidate c \<le> count_list s c)
        \<longleftrightarrow> (\<forall>c. count (mset candidate) c \<le> count (mset s) c)"
  proof (intro iffI allI ballI)
    fix c
    assume h: "\<forall>c\<in>set candidate. count_list candidate c \<le> count_list s c"
    show "count (mset candidate) c \<le> count (mset s) c"
    proof (cases "c \<in> set candidate")
      case True
      with h show ?thesis by (simp add: count_mset)
    next
      case False
      then show ?thesis by (simp add: count_mset count_list_0_iff)
    qed
  next
    fix c
    assume "\<forall>c. count (mset candidate) c \<le> count (mset s) c"
    then show "count_list candidate c \<le> count_list s c" by (simp add: count_mset)
  qed
  then show ?thesis
    by (simp add: contains_count_list subseteq_mset_def)
qed

subsection \<open>Facts about drawing without replacement\<close>

lemma mset_remove_nth:
  "i < length pool \<Longrightarrow> mset (take i pool @ drop (Suc i) pool) + {#pool ! i#} = mset pool"
proof -
  assume "i < length pool"
  then have "pool = take i pool @ pool ! i # drop (Suc i) pool"
    by (rule id_take_nth_drop)
  then have "mset pool = mset (take i pool @ pool ! i # drop (Suc i) pool)"
    by simp
  then show ?thesis by simp
qed

lemma pick_mset: "mset (fst (pick drw n pool g)) \<subseteq># mset pool"
proof (induction n arbitrary: pool g)
  case 0
  then show ?case by simp
next
  case (Suc n)
  show ?case
  proof (cases "pool = []")
    case True
    then show ?thesis by simp
  next
    case False
    obtain r g1 where d: "drw g = (r, g1)" by (cases "drw g")
    define i where "i = r mod length pool"
    define pool' where "pool' = take i pool @ drop (Suc i) pool"
    obtain rest g2 where p: "pick drw n pool' g1 = (rest, g2)" by (cases "pick drw n pool' g1")
    from False have il: "i < length pool" by (simp add: i_def)
    have "mset rest \<subseteq># mset pool'" using Suc.IH [of pool' g1] p by simp
    then have "mset rest + {#pool ! i#} \<subseteq># mset pool' + {#pool ! i#}" by simp
    also have "mset pool' + {#pool ! i#} = mset pool"
      unfolding pool'_def by (rule mset_remove_nth [OF il])
    finally have "mset (pool ! i # rest) \<subseteq># mset pool" by simp
    moreover have "fst (pick drw (Suc n) pool g) = pool ! i # rest"
      using False d p by (simp add: i_def pool'_def Let_def)
    ultimately show ?thesis by simp
  qed
qed

lemma pick_length: "length (fst (pick drw n pool g)) = min n (length pool)"
proof (induction n arbitrary: pool g)
  case 0
  then show ?case by simp
next
  case (Suc n)
  show ?case
  proof (cases "pool = []")
    case True
    then show ?thesis by simp
  next
    case False
    obtain r g1 where d: "drw g = (r, g1)" by (cases "drw g")
    define i where "i = r mod length pool"
    define pool' where "pool' = take i pool @ drop (Suc i) pool"
    obtain rest g2 where p: "pick drw n pool' g1 = (rest, g2)" by (cases "pick drw n pool' g1")
    from False have il: "i < length pool" by (simp add: i_def)
    then have "length pool' = length pool - 1" by (simp add: pool'_def)
    moreover have "length rest = min n (length pool')" using Suc.IH [of pool' g1] p by simp
    moreover have "fst (pick drw (Suc n) pool g) = pool ! i # rest"
      using False d p by (simp add: i_def pool'_def Let_def)
    ultimately show ?thesis using il by simp
  qed
qed

lemma pick_all: "length pool \<le> n \<Longrightarrow> mset (fst (pick drw n pool g)) = mset pool"
proof (rule ccontr)
  assume h: "length pool \<le> n" and ne: "mset (fst (pick drw n pool g)) \<noteq> mset pool"
  from ne pick_mset [of drw n pool g] have "mset (fst (pick drw n pool g)) \<subset># mset pool"
    by (simp add: subset_mset.less_le)
  then have "size (mset (fst (pick drw n pool g))) < size (mset pool)"
    by (rule mset_subset_size)
  with h show False by (simp add: pick_length)
qed

lemma distinct_of_mset_subseteq:
  assumes sub: "mset xs \<subseteq># mset ys" and d: "distinct ys"
  shows "distinct xs"
  unfolding distinct_count_atmost_1
proof
  fix a
  have "count (mset xs) a \<le> count (mset ys) a"
    using sub by (rule mset_subset_eq_count)
  also have "count (mset ys) a \<le> 1"
    using d by (simp add: distinct_count_atmost_1)
  finally have le: "count (mset xs) a \<le> 1" .
  show "count (mset xs) a = (if a \<in> set xs then 1 else 0)"
  proof (cases "a \<in> set xs")
    case True
    then have "1 \<le> count (mset xs) a" by (simp add: Suc_le_eq)
    with le have "count (mset xs) a = 1" by (rule order_antisym)
    with True show ?thesis by (simp only: if_True)
  next
    case False
    then show ?thesis by (simp add: count_mset count_list_0_iff)
  qed
qed

lemma jumbled_ok:
  assumes "1 \<le> k" "k \<le> int (length V)"
  shows "jumbled src g V k seed =
     (let g0 = (case seed of None \<Rightarrow> g | Some r \<Rightarrow> from_seed src r);
          sel = pick (next_draw src) (nat k) V g0;
          letters = concat (fst sel)
      in Inr (pick (next_draw src) (length letters) letters (snd sel)))"
  using assms by (simp add: jumbled_def Let_def split: prod.splits)

subsection \<open>Facts about the concrete game\<close>

lemma jumbled_game_seed_7:
  "jumbled lcg 0 [''act'', ''cat'', ''tack''] 3 (Some 7) = Inr (''ctaacatctk'', 2)"
  by code_simp

lemma jumbled_game_unseeded:
  "jumbled lcg 0 [''act'', ''cat'', ''tack''] 3 None = Inr (''tctackctaa'', 15)"
  by code_simp

section \<open>The claims\<close>

subsection \<open>LetterBag containment\<close>

text \<open>
  Claim C3. For every string \<open>s\<close> and every candidate, the containment query on the
  bag of \<open>s\<close> is true exactly when every character of the candidate occurs in the
  candidate at most as often as in \<open>s\<close>. The empty candidate is contained, and a
  candidate with a character that does not occur in \<open>s\<close> is not.
\<close>

theorem contains_iff_counts:
  "(contains (LetterBag s) candidate \<longleftrightarrow>
      (\<forall>c\<in>set candidate. count_list candidate c \<le> count_list s c))
   \<and> contains (LetterBag s) []
   \<and> ((\<exists>c\<in>set candidate. c \<notin> set s) \<longrightarrow> \<not> contains (LetterBag s) candidate)"
proof (intro conjI impI)
  show "contains (LetterBag s) candidate \<longleftrightarrow>
      (\<forall>c\<in>set candidate. count_list candidate c \<le> count_list s c)"
    by (rule contains_count_list)
  show "contains (LetterBag s) []"
    by (simp add: contains_count_list)
next
  assume "\<exists>c\<in>set candidate. c \<notin> set s"
  then obtain c where c: "c \<in> set candidate" "c \<notin> set s" by blast
  then have "count_list s c = 0" and "count_list candidate c \<noteq> 0"
    by (simp_all add: count_list_0_iff)
  then have "\<not> count_list candidate c \<le> count_list s c"
    by simp
  with c(1) show "\<not> contains (LetterBag s) candidate"
    unfolding contains_count_list by blast
qed

text \<open>An instance: "cat" is spellable from "tack", and "tack" is not spellable from "tac".\<close>

theorem contains_iff_counts_witness:
  "count_list ''cat'' CHR ''c'' \<le> count_list ''tack'' CHR ''c''
   \<and> count_list ''cat'' CHR ''a'' \<le> count_list ''tack'' CHR ''a''
   \<and> count_list ''cat'' CHR ''t'' \<le> count_list ''tack'' CHR ''t''
   \<and> contains (LetterBag ''tack'') ''cat''
   \<and> CHR ''k'' \<in> set ''tack'' \<and> CHR ''k'' \<notin> set ''tac''
   \<and> \<not> contains (LetterBag ''tac'') ''tack''
   \<and> contains (LetterBag ''tac'') []"
  using contains_iff_counts [of "''tack''" "''cat''"] contains_iff_counts [of "''tac''" "''tack''"]
  by simp

subsection \<open>The jumble generator\<close>

text \<open>
  Claim C2. For every vocabulary \<open>V\<close> (a list of distinct words), every target count
  \<open>k\<close> with \<open>1 \<le> k \<le> |V|\<close> and every seed, given or absent, the generator returns
  a jumble \<open>J\<close>, and there are \<open>k\<close> distinct words of \<open>V\<close> that are each contained
  in the bag of \<open>J\<close>.
\<close>

theorem jumbled_spells_selected:
  assumes "distinct V" and "1 \<le> k" and "k \<le> int (length V)"
  shows "\<exists>J g'. jumbled src g V k seed = Inr (J, g') \<and>
           (\<exists>ws. length ws = nat k \<and> distinct ws \<and> set ws \<subseteq> set V \<and>
                 (\<forall>w\<in>set ws. contains (LetterBag J) w))"
proof -
  define g0 where "g0 = (case seed of None \<Rightarrow> g | Some r \<Rightarrow> from_seed src r)"
  define sel where "sel = pick (next_draw src) (nat k) V g0"
  define ws where "ws = fst sel"
  define res where "res = pick (next_draw src) (length (concat ws)) (concat ws) (snd sel)"
  have run: "jumbled src g V k seed = Inr (fst res, snd res)"
    using assms(2,3) by (simp add: jumbled_ok Let_def res_def ws_def sel_def g0_def)
  have sub: "mset ws \<subseteq># mset V"
    unfolding ws_def sel_def by (rule pick_mset)
  have len: "length ws = nat k"
    using assms(2,3) unfolding ws_def sel_def by (simp add: pick_length)
  have dist: "distinct ws"
    using sub assms(1) by (rule distinct_of_mset_subseteq)
  have inV: "set ws \<subseteq> set V"
    using sub by (rule set_mset_mono [of "mset ws" "mset V", simplified])
  have perm: "mset (fst res) = mset (concat ws)"
    unfolding res_def by (rule pick_all) simp
  have "\<forall>w\<in>set ws. contains (LetterBag (fst res)) w"
  proof
    fix w assume "w \<in> set ws"
    then obtain as bs where "ws = as @ w # bs" by (auto simp: in_set_conv_decomp)
    then have "mset w \<subseteq># mset (concat ws)" by simp
    then show "contains (LetterBag (fst res)) w" by (simp add: contains_mset perm)
  qed
  with run len dist inV show ?thesis by blast
qed

text \<open>An instance with three words, target count 2 and seed 7.\<close>

theorem jumbled_spells_selected_witness:
  "distinct [''cat'', ''act'', ''tack''] \<and>
   (\<exists>J g'. jumbled lcg 0 [''cat'', ''act'', ''tack''] 2 (Some 7) = Inr (J, g') \<and>
           (\<exists>ws. length ws = nat 2 \<and> distinct ws \<and> set ws \<subseteq> set [''cat'', ''act'', ''tack''] \<and>
                 (\<forall>w\<in>set ws. contains (LetterBag J) w)))"
  using jumbled_spells_selected [of "[''cat'', ''act'', ''tack'']" 2 lcg 0 "Some 7"]
  by simp

text \<open>
  Claim C4. For every vocabulary \<open>V\<close>, every \<open>k\<close> with \<open>1 \<le> k \<le> |V|\<close> and every
  seed \<open>r\<close>, the seeded generator returns one and the same jumble string whatever the
  ambient state of the random source is: the string is a function of the word list, the
  target count and the seed alone.
\<close>

theorem jumbled_seeded_deterministic:
  assumes "1 \<le> k" and "k \<le> int (length V)"
  shows "\<exists>J. \<forall>g. jumble_of (jumbled src g V k (Some r)) = Inr J"
proof -
  have "\<forall>g. jumble_of (jumbled src g V k (Some r)) =
      Inr (fst (let sel = pick (next_draw src) (nat k) V (from_seed src r);
                    letters = concat (fst sel)
                in pick (next_draw src) (length letters) letters (snd sel)))"
    using assms by (simp add: jumbled_ok jumble_of_def Let_def split: prod.splits)
  then show ?thesis by blast
qed

text \<open>An instance: seed 7 gives the same string from the ambient states 0 and 5.\<close>

theorem jumbled_seeded_deterministic_witness:
  "jumble_of (jumbled lcg 0 [''cat'', ''act'', ''tack''] 2 (Some 7)) = Inr ''cattca''
   \<and> jumble_of (jumbled lcg 5 [''cat'', ''act'', ''tack''] 2 (Some 7)) = Inr ''cattca''"
proof -
  obtain J where J: "\<forall>g. jumble_of (jumbled lcg g [''cat'', ''act'', ''tack''] 2 (Some 7)) = Inr J"
    using jumbled_seeded_deterministic [of 2 "[''cat'', ''act'', ''tack'']" lcg 7] by auto
  have "jumble_of (jumbled lcg 0 [''cat'', ''act'', ''tack''] 2 (Some 7)) = Inr ''cattca''"
    by code_simp
  with J show ?thesis by simp
qed

text \<open>
  Claim C5. For every vocabulary \<open>V\<close> and every seed, the generator fails with
  InvalidArgument whenever the target count is below 1 or above \<open>|V|\<close>; in particular
  for the target counts 0 and \<open>|V| + 1\<close>.
\<close>

theorem jumbled_rejects_out_of_range:
  "((k < 1 \<or> int (length V) < k) \<longrightarrow> jumbled src g V k seed = Inl InvalidArgument)
   \<and> jumbled src g V 0 seed = Inl InvalidArgument
   \<and> jumbled src g V (int (length V) + 1) seed = Inl InvalidArgument"
  by (simp add: jumbled_def)

text \<open>Instances: the target counts 0, 3 and -1 on a vocabulary of two words.\<close>

theorem jumbled_rejects_out_of_range_witness:
  "jumbled lcg 0 [''cat'', ''act''] 0 (Some 7) = Inl InvalidArgument
   \<and> jumbled lcg 0 [''cat'', ''act''] 3 (Some 7) = Inl InvalidArgument
   \<and> jumbled lcg 0 [''cat'', ''act''] (- 1) None = Inl InvalidArgument"
  using jumbled_rejects_out_of_range [of 0 "[''cat'', ''act'']" lcg 0 "Some 7"]
    jumbled_rejects_out_of_range [of 3 "[''cat'', ''act'']" lcg 0 "Some 7"]
    jumbled_rejects_out_of_range [of "- 1" "[''cat'', ''act'']" lcg 0 None]
  by simp

subsection \<open>The handler check\<close>

text \<open>
  Claim C1. For every attempt, jumble, vocabulary and list of matches held by the session,
  check answers \<open>valid_word = True\<close>, through its first branch, exactly when the
  attempt is a vocabulary word, is spellable from the letters of the jumble (its letters,
  as a multiset, are among those of the jumble) and is not in the session's matches (a
  session without the key has none); it then appends the attempt to the matches of the
  session. Otherwise it answers \<open>valid_word = False\<close> and leaves the session as it
  was, through the branch for an attempt already found, else the branch for an attempt
  that is no vocabulary word, else the branch for an attempt that is not spellable: the
  tests are made in that order.
\<close>

theorem check_accepts_iff:
  assumes "jumble sess = Some j"
  shows "\<exists>out sess'. check gl text sess = Inr (out, sess') \<and>
     (valid_word out \<longleftrightarrow>
        has (WORDS gl) text \<and> mset text \<subseteq># mset j \<and>
        \<not> (case matches sess of None \<Rightarrow> False | Some ms \<Rightarrow> text \<in> set ms)) \<and>
     (branch out = Accept \<longleftrightarrow> valid_word out) \<and>
     (valid_word out \<longrightarrow>
        sess' = sess\<lparr>matches :=
                  Some ((case matches sess of None \<Rightarrow> [] | Some ms \<Rightarrow> ms) @ [text])\<rparr>) \<and>
     (\<not> valid_word out \<longrightarrow>
        sess' = sess \<and>
        branch out =
          (if (case matches sess of None \<Rightarrow> False | Some ms \<Rightarrow> text \<in> set ms) then Already_found
           else if \<not> has (WORDS gl) text then Not_vocab_word
           else Not_spellable))"
  using assms
  by (cases "matches sess") (simp_all add: check_def session_matches_def Let_def contains_mset)

text \<open>
  Instances from section 8 of the spec: with the jumble "tack", "cat" is accepted and
  recorded; "cat" is rejected as already found once it is among the matches; "dog" is
  rejected as no vocabulary word; and "tack" is not spellable from the jumble "tac".
\<close>

theorem check_accepts_iff_witness:
  "jumble (playing ''tack'' []) = Some ''tack''
   \<and> check game ''cat'' (playing ''tack'' [])
       = Inr (\<lparr>branch = Accept, valid_word = True, success_count = 3\<rparr>, playing ''tack'' [''cat''])
   \<and> check game ''cat'' (playing ''tack'' [''act'', ''cat''])
       = Inr (\<lparr>branch = Already_found, valid_word = False, success_count = 3\<rparr>,
              playing ''tack'' [''act'', ''cat''])
   \<and> check game ''dog'' (playing ''tack'' [''cat''])
       = Inr (\<lparr>branch = Not_vocab_word, valid_word = False, success_count = 3\<rparr>,
              playing ''tack'' [''cat''])
   \<and> check game ''tack'' (playing ''tac'' [''cat''])
       = Inr (\<lparr>branch = Not_spellable, valid_word = False, success_count = 3\<rparr>,
              playing ''tac'' [''cat''])"
proof -
  have j: "jumble (playing ''tack'' ms) = Some ''tack''" for ms
    by (simp add: playing_def)
  have j': "jumble (playing ''tac'' ms) = Some ''tac''" for ms
    by (simp add: playing_def)
  have w: "has (WORDS game) ''cat''" "\<not> has (WORDS game) ''dog''" "has (WORDS game) ''tack''"
    by (simp_all add: has_def game_def)
  have m: "mset ''cat'' \<subseteq># mset ''tack''" "\<not> mset ''tack'' \<subseteq># mset ''tac''"
    by (simp_all add: contains_mset [symmetric] contains_count_list)
  have n: "success_count (fst (projr (check game t sess))) = 3" if "jumble sess \<noteq> None" for t sess
    using that by (auto simp: check_def Let_def game_def)
  have a: "check game ''cat'' (playing ''tack'' [])
       = Inr (\<lparr>branch = Accept, valid_word = True, success_count = 3\<rparr>, playing ''tack'' [''cat''])"
    using check_accepts_iff [OF j [of "[]"], of game "''cat''"] w m
      n [of "playing ''tack'' []" "''cat''"]
    by (auto simp: playing_def)
  have b: "check game ''cat'' (playing ''tack'' [''act'', ''cat''])
       = Inr (\<lparr>branch = Already_found, valid_word = False, success_count = 3\<rparr>,
              playing ''tack'' [''act'', ''cat''])"
    using check_accepts_iff [OF j [of "[''act'', ''cat'']"], of game "''cat''"] w m
      n [of "playing ''tack'' [''act'', ''cat'']" "''cat''"]
    by (auto simp: playing_def)
  have c: "check game ''dog'' (playing ''tack'' [''cat''])
       = Inr (\<lparr>branch = Not_vocab_word, valid_word = False, success_count = 3\<rparr>,
              playing ''tack'' [''cat''])"
    using check_accepts_iff [OF j [of "[''cat'']"], of game "''dog''"] w m
      n [of "playing ''tack'' [''cat'']" "''dog''"]
    by (auto simp: playing_def)
  have d: "check game ''tack'' (playing ''tac'' [''cat''])
       = Inr (\<lparr>branch = Not_spellable, valid_word = False, success_count = 3\<rparr>,
              playing ''tac'' [''cat''])"
    using check_accepts_iff [OF j' [of "[''cat'']"], of game "''tack''"] w m
      n [of "playing ''tac'' [''cat'']" "''tack''"]
    by (auto simp: playing_def)
  from j [of "[]"] a b c d show ?thesis by simp
qed

text \<open>
  Claim C9. Whenever check returns through a branch other than the accepting one, the
  session it returns is the session it was given; the accepting branch changes the matches
  only, by appending the attempt.
\<close>

theorem check_rejection_keeps_session:
  assumes "check gl text sess = Inr (out, sess')"
  shows "(branch out \<noteq> Accept \<longrightarrow> sess' = sess)
     \<and> (branch out = Accept \<longrightarrow> sess' = sess\<lparr>matches := Some (session_matches sess @ [text])\<rparr>)"
  using assms by (auto simp: check_def Let_def split: option.splits if_splits)

text \<open>An instance: "cat" a second time is rejected as already found, the session is as before.\<close>

theorem check_rejection_keeps_session_witness:
  "check game ''cat'' (playing ''tack'' [''cat''])
     = Inr (\<lparr>branch = Already_found, valid_word = False, success_count = 3\<rparr>,
            playing ''tack'' [''cat''])
   \<and> branch \<lparr>branch = Already_found, valid_word = False, success_count = 3\<rparr> \<noteq> Accept
   \<and> playing ''tack'' [''cat''] = playing ''tack'' [''cat'']"
proof -
  have e: "check game ''cat'' (playing ''tack'' [''cat''])
     = Inr (\<lparr>branch = Already_found, valid_word = False, success_count = 3\<rparr>,
            playing ''tack'' [''cat''])"
    by (simp add: check_def game_def has_def session_matches_def contains_count_list playing_def)
  from check_rejection_keeps_session [OF e] e show ?thesis by simp
qed

text \<open>
  Claim C6. For every attempt, session and vocabulary, check never ends in the final
  \<open>else\<close> with its \<open>assert False\<close>; and when the session holds a jumble, check
  returns through exactly one of the four branches.
\<close>

theorem check_assertion_unreachable:
  "check gl text sess \<noteq> Inl AssertionError
   \<and> (jumble sess \<noteq> None \<longrightarrow>
        (\<exists>!b. \<exists>out sess'. check gl text sess = Inr (out, sess') \<and> branch out = b))"
  by (auto simp: check_def Let_def split: option.splits)

text \<open>An instance: "tack" against the jumble "tac" is rejected as not spellable.\<close>

theorem check_assertion_unreachable_witness:
  "jumble (playing ''tac'' []) \<noteq> None
   \<and> check game ''tack'' (playing ''tac'' []) \<noteq> Inl AssertionError
   \<and> (\<exists>!b. \<exists>out sess'. check game ''tack'' (playing ''tac'' []) = Inr (out, sess') \<and> branch out = b)
   \<and> check game ''tack'' (playing ''tac'' [])
       = Inr (\<lparr>branch = Not_spellable, valid_word = False, success_count = 3\<rparr>, playing ''tac'' [])"
proof -
  have j: "jumble (playing ''tac'' []) \<noteq> None"
    by (simp add: playing_def)
  have "check game ''tack'' (playing ''tac'' [])
       = Inr (\<lparr>branch = Not_spellable, valid_word = False, success_count = 3\<rparr>, playing ''tac'' [])"
    by (simp add: check_def game_def has_def session_matches_def contains_count_list playing_def)
  with j check_assertion_unreachable [of game "''tack''" "playing ''tac'' []"] show ?thesis
    by simp
qed

subsection \<open>The handler index\<close>

text \<open>
  Claim C7, as stated: for every loaded vocabulary and every configured success threshold
  the target count that index computes is strictly positive. This fails for a threshold
  below 1: with the threshold 0 the target count is 0, and index does not return a page.
\<close>

theorem index_target_count_counterexample:
  "\<not> 0 < index_target_count (game\<lparr>CONFIG := \<lparr>CONFIG_SEED = CfgNumeral 7, SUCCESS_AT_COUNT = 0\<rparr>\<rparr>)
   \<and> index lcg (game\<lparr>CONFIG := \<lparr>CONFIG_SEED = CfgNumeral 7, SUCCESS_AT_COUNT = 0\<rparr>\<rparr>) fresh
       = Inl InvalidArgument"
  by (simp add: index_target_count_def index_def index_jumbled_def jumbled_def game_def as_list_def)

text \<open>
  Claim C7, amended. For every non-empty vocabulary, index computes the target count
  \<open>min (|vocabulary|, threshold)\<close> and passes it to the generator. The target count is
  strictly positive exactly when the configured threshold is at least 1; in that case the
  generator succeeds and index stores the target count, the jumble and an empty list of
  matches in the session, and both assertions hold. With a threshold below 1 index fails.
\<close>

theorem index_sets_target_count:
  assumes "as_list (WORDS gl) \<noteq> []"
  shows "(1 \<le> SUCCESS_AT_COUNT (CONFIG gl) \<longrightarrow>
           (\<exists>j g'. index_jumbled src gl = Inr (j, g') \<and>
              index src gl sess =
                Inr (sess\<lparr>target_count := Some (index_target_count gl), jumble := Some j,
                           matches := Some []\<rparr>,
                     gl\<lparr>random_state := g'\<rparr>)))
     \<and> index_target_count gl = min (int (length (as_list (WORDS gl)))) (SUCCESS_AT_COUNT (CONFIG gl))
     \<and> index_jumbled src gl =
         jumbled src (random_state gl) (as_list (WORDS gl))
           (min (int (length (as_list (WORDS gl)))) (SUCCESS_AT_COUNT (CONFIG gl)))
           (seed_argument (SEED gl))
     \<and> (0 < index_target_count gl \<longleftrightarrow> 1 \<le> SUCCESS_AT_COUNT (CONFIG gl))
     \<and> (SUCCESS_AT_COUNT (CONFIG gl) < 1 \<longrightarrow> (\<exists>e. index src gl sess = Inl e))"
proof (intro conjI impI)
  assume pos: "1 \<le> SUCCESS_AT_COUNT (CONFIG gl)"
  from assms have "1 \<le> int (length (as_list (WORDS gl)))"
    by (cases "as_list (WORDS gl)") simp_all
  with pos have tc: "1 \<le> index_target_count gl"
    "index_target_count gl \<le> int (length (as_list (WORDS gl)))"
    by (simp_all add: index_target_count_def)
  obtain j g' where r: "index_jumbled src gl = Inr (j, g')"
    using tc by (auto simp: index_jumbled_def jumbled_ok Let_def intro: prod.exhaust)
  with tc(1) have "index src gl sess =
      Inr (sess\<lparr>target_count := Some (index_target_count gl), jumble := Some j, matches := Some []\<rparr>,
           gl\<lparr>random_state := g'\<rparr>)"
    by (simp add: index_def Let_def)
  with r show "\<exists>j g'. index_jumbled src gl = Inr (j, g') \<and>
              index src gl sess =
                Inr (sess\<lparr>target_count := Some (index_target_count gl), jumble := Some j,
                           matches := Some []\<rparr>,
                     gl\<lparr>random_state := g'\<rparr>)"
    by blast
next
  show "index_target_count gl = min (int (length (as_list (WORDS gl)))) (SUCCESS_AT_COUNT (CONFIG gl))"
    by (simp add: index_target_count_def)
  show "index_jumbled src gl =
         jumbled src (random_state gl) (as_list (WORDS gl))
           (min (int (length (as_list (WORDS gl)))) (SUCCESS_AT_COUNT (CONFIG gl)))
           (seed_argument (SEED gl))"
    by (simp add: index_jumbled_def index_target_count_def)
  from assms have "1 \<le> int (length (as_list (WORDS gl)))"
    by (cases "as_list (WORDS gl)") simp_all
  then show "0 < index_target_count gl \<longleftrightarrow> 1 \<le> SUCCESS_AT_COUNT (CONFIG gl)"
    by (auto simp: index_target_count_def)
next
  assume "SUCCESS_AT_COUNT (CONFIG gl) < 1"
  then have "index_target_count gl < 1"
    by (simp add: index_target_count_def)
  then have "index_jumbled src gl = Inl InvalidArgument"
    by (simp add: index_jumbled_def jumbled_def)
  then show "\<exists>e. index src gl sess = Inl e"
    by (simp add: index_def Let_def)
qed

text \<open>An instance: the game with three words and threshold 3, from a fresh session.\<close>

theorem index_sets_target_count_witness:
  "as_list (WORDS game) \<noteq> [] \<and> 1 \<le> SUCCESS_AT_COUNT (CONFIG game)
   \<and> index_target_count game = 3
   \<and> (\<exists>j g'. index lcg game fresh =
          Inr (\<lparr>target_count = Some 3, jumble = Some j, matches = Some []\<rparr>,
               game\<lparr>random_state := g'\<rparr>))"
proof -
  have ne: "as_list (WORDS game) \<noteq> []"
    by (simp add: game_def as_list_def)
  have th: "1 \<le> SUCCESS_AT_COUNT (CONFIG game)"
    by (simp add: game_def)
  have tc: "index_target_count game = 3"
    by (simp add: index_target_count_def game_def as_list_def)
  from index_sets_target_count [OF ne, of lcg fresh] th
  have "\<exists>j g'. index lcg game fresh =
          Inr (fresh\<lparr>target_count := Some (index_target_count game), jumble := Some j,
                     matches := Some []\<rparr>,
               game\<lparr>random_state := g'\<rparr>)"
    by blast
  then have "\<exists>j g'. index lcg game fresh =
          Inr (\<lparr>target_count = Some 3, jumble = Some j, matches = Some []\<rparr>,
               game\<lparr>random_state := g'\<rparr>)"
    by (simp add: tc fresh_def)
  with ne th tc show ?thesis by blast
qed

text \<open>
  Claim C10, as stated: for every configured SEED value that is not an integer, index
  calls the generator without a seed, and only a positive integer is passed on. This fails
  for a value that \<open>int\<close> converts: the float 7.5 is no integer, lines 34 to 38 make
  the seed 7 of it, and index calls the generator with the seed 7, so that the jumble is
  the one of seed 7 and not the unseeded one. On the value \<open>None\<close>, \<open>int\<close>
  raises TypeError, which line 37 does not catch.
\<close>

theorem index_seed_non_integer_counterexample:
  "init_SEED cfg_int (CfgFloat 30 2) = Inr (Some 7)
   \<and> SEED (configured (CfgFloat 30 2)) = Some 7
   \<and> index lcg (configured (CfgFloat 30 2)) fresh
       = Inr (\<lparr>target_count = Some 3, jumble = Some ''ctaacatctk'', matches = Some []\<rparr>,
              (configured (CfgFloat 30 2))\<lparr>random_state := 2\<rparr>)
   \<and> jumbled lcg 0 [''act'', ''cat'', ''tack''] 3 (Some 7) = Inr (''ctaacatctk'', 2)
   \<and> jumbled lcg 0 [''act'', ''cat'', ''tack''] 3 None = Inr (''tctackctaa'', 15)
   \<and> init_SEED cfg_int CfgNone = Inl TypeError"
proof -
  have i: "init_SEED cfg_int (CfgFloat 30 2) = Inr (Some 7)"
    by (simp add: init_SEED_def cfg_int_def)
  have n: "init_SEED cfg_int CfgNone = Inl TypeError"
    by (simp add: init_SEED_def cfg_int_def)
  have g: "random_state (configured raw) = 0"
    "as_list (WORDS (configured raw)) = [''act'', ''cat'', ''tack'']"
    "index_target_count (configured raw) = 3" for raw
    by (simp_all add: configured_def game_def as_list_def index_target_count_def)
  have s: "SEED (configured (CfgFloat 30 2)) = Some 7"
    by (simp add: configured_def init_SEED_def cfg_int_def)
  have "index lcg (configured (CfgFloat 30 2)) fresh
       = Inr (\<lparr>target_count = Some 3, jumble = Some ''ctaacatctk'', matches = Some []\<rparr>,
              (configured (CfgFloat 30 2))\<lparr>random_state := 2\<rparr>)"
    by (simp add: index_def index_jumbled_def seed_argument_def g s fresh_def
        jumbled_game_seed_7)
  with i n s jumbled_game_seed_7 jumbled_game_unseeded show ?thesis by simp
qed

text \<open>
  Claim C10, amended. Whenever lines 34 to 38 complete on the configured value, leaving
  the global SEED, \<open>int\<close> has returned an integer or raised ValueError, and index
  calls the generator with no seed when \<open>int\<close> raised ValueError or returned zero or
  a negative number, and with the integer that \<open>int\<close> returned when it is positive.
  What index returns is what lines 50 to 57 make of the result of that call.
\<close>

theorem index_seed_passed:
  assumes "init_SEED py_int (CONFIG_SEED (CONFIG gl)) = Inr (SEED gl)"
  shows "index src gl sess =
     (case jumbled src (random_state gl) (as_list (WORDS gl)) (index_target_count gl)
             (case py_int (CONFIG_SEED (CONFIG gl)) of
                Inl e \<Rightarrow> None
              | Inr i \<Rightarrow> if 0 < i then Some i else None) of
        Inl e \<Rightarrow> Inl e
      | Inr (j, g') \<Rightarrow>
          if 0 < index_target_count gl
          then Inr (sess\<lparr>target_count := Some (index_target_count gl), jumble := Some j,
                         matches := Some []\<rparr>,
                    gl\<lparr>random_state := g'\<rparr>)
          else Inl AssertionError)
     \<and> (case py_int (CONFIG_SEED (CONFIG gl)) of Inl e \<Rightarrow> e = ValueError | Inr i \<Rightarrow> True)"
proof -
  have c: "(\<exists>i. py_int (CONFIG_SEED (CONFIG gl)) = Inr i \<and> SEED gl = Some i)
      \<or> (py_int (CONFIG_SEED (CONFIG gl)) = Inl ValueError \<and> SEED gl = None)"
  proof (cases "py_int (CONFIG_SEED (CONFIG gl))")
    case (Inl err)
    with assms have "err = ValueError" and "SEED gl = None"
      by (simp_all add: init_SEED_def split: if_splits)
    with Inl show ?thesis by simp
  next
    case (Inr i)
    with assms have "SEED gl = Some i"
      by (simp add: init_SEED_def)
    with Inr show ?thesis by simp
  qed
  have s: "seed_argument (SEED gl) =
      (case py_int (CONFIG_SEED (CONFIG gl)) of
         Inl e \<Rightarrow> None
       | Inr i \<Rightarrow> if 0 < i then Some i else None)"
    using c by (auto simp: seed_argument_def)
  have e: "(case py_int (CONFIG_SEED (CONFIG gl)) of Inl e \<Rightarrow> e = ValueError | Inr i \<Rightarrow> True)"
    using c by auto
  have "index src gl sess =
     (case jumbled src (random_state gl) (as_list (WORDS gl)) (index_target_count gl)
             (seed_argument (SEED gl)) of
        Inl e \<Rightarrow> Inl e
      | Inr (j, g') \<Rightarrow>
          if 0 < index_target_count gl
          then Inr (sess\<lparr>target_count := Some (index_target_count gl), jumble := Some j,
                         matches := Some []\<rparr>,
                    gl\<lparr>random_state := g'\<rparr>)
          else Inl AssertionError)"
    by (simp add: index_def index_jumbled_def Let_def split: sum.splits prod.splits)
  with s e show ?thesis by simp
qed

text \<open>
  Instances: the configured values "seven", "-3" and 0 give the unseeded jumble, "7"
  gives the jumble of seed 7.
\<close>

theorem index_seed_passed_witness:
  "init_SEED cfg_int (CONFIG_SEED (CONFIG (configured (CfgText ''seven'')))) = Inr None
   \<and> index lcg (configured (CfgText ''seven'')) fresh
       = Inr (\<lparr>target_count = Some 3, jumble = Some ''tctackctaa'', matches = Some []\<rparr>,
              (configured (CfgText ''seven''))\<lparr>random_state := 15\<rparr>)
   \<and> index lcg (configured (CfgNumeral (- 3))) fresh
       = Inr (\<lparr>target_count = Some 3, jumble = Some ''tctackctaa'', matches = Some []\<rparr>,
              (configured (CfgNumeral (- 3)))\<lparr>random_state := 15\<rparr>)
   \<and> index lcg (configured (CfgInt 0)) fresh
       = Inr (\<lparr>target_count = Some 3, jumble = Some ''tctackctaa'', matches = Some []\<rparr>,
              (configured (CfgInt 0))\<lparr>random_state := 15\<rparr>)
   \<and> index lcg (configured (CfgNumeral 7)) fresh
       = Inr (\<lparr>target_count = Some 3, jumble = Some ''ctaacatctk'', matches = Some []\<rparr>,
              (configured (CfgNumeral 7))\<lparr>random_state := 2\<rparr>)"
proof -
  have v: "cfg_int (CfgText ''seven'') = Inl ValueError" "cfg_int (CfgNumeral (- 3)) = Inr (- 3)"
    "cfg_int (CfgInt 0) = Inr 0" "cfg_int (CfgNumeral 7) = Inr 7"
    by (simp_all add: cfg_int_def)
  have h: "init_SEED cfg_int (CONFIG_SEED (CONFIG (configured raw))) = Inr (SEED (configured raw))"
    if "cfg_int raw = Inl ValueError \<or> (\<exists>i. cfg_int raw = Inr i)" for raw
    using that by (auto simp: configured_def init_SEED_def)
  have g: "random_state (configured raw) = 0" "as_list (WORDS (configured raw)) = [''act'', ''cat'', ''tack'']"
    "index_target_count (configured raw) = 3" "CONFIG_SEED (CONFIG (configured raw)) = raw" for raw
    by (simp_all add: configured_def game_def as_list_def index_target_count_def)
  have a: "index lcg (configured (CfgText ''seven'')) fresh
       = Inr (\<lparr>target_count = Some 3, jumble = Some ''tctackctaa'', matches = Some []\<rparr>,
              (configured (CfgText ''seven''))\<lparr>random_state := 15\<rparr>)"
    using index_seed_passed [OF h, of "CfgText ''seven''" lcg fresh] v
    by (simp add: v g jumbled_game_unseeded fresh_def)
  have b: "index lcg (configured (CfgNumeral (- 3))) fresh
       = Inr (\<lparr>target_count = Some 3, jumble = Some ''tctackctaa'', matches = Some []\<rparr>,
              (configured (CfgNumeral (- 3)))\<lparr>random_state := 15\<rparr>)"
    using index_seed_passed [OF h, of "CfgNumeral (- 3)" lcg fresh] v
    by (simp add: v g jumbled_game_unseeded fresh_def)
  have c: "index lcg (configured (CfgInt 0)) fresh
       = Inr (\<lparr>target_count = Some 3, jumble = Some ''tctackctaa'', matches = Some []\<rparr>,
              (configured (CfgInt 0))\<lparr>random_state := 15\<rparr>)"
    using index_seed_passed [OF h, of "CfgInt 0" lcg fresh] v
    by (simp add: v g jumbled_game_unseeded fresh_def)
  have d: "index lcg (configured (CfgNumeral 7)) fresh
       = Inr (\<lparr>target_count = Some 3, jumble = Some ''ctaacatctk'', matches = Some []\<rparr>,
              (configured (CfgNumeral 7))\<lparr>random_state := 2\<rparr>)"
    using index_seed_passed [OF h, of "CfgNumeral 7" lcg fresh] v
    by (simp add: v g jumbled_game_seed_7 fresh_def)
  have "init_SEED cfg_int (CONFIG_SEED (CONFIG (configured (CfgText ''seven'')))) = Inr None"
    by (simp add: g init_SEED_def v)
  with a b c d show ?thesis by simp
qed

subsection \<open>Loading the vocabulary\<close>

text \<open>
  Claim C8. Loading fails with LoadError when the source cannot be read, and when it
  holds no word (every line is blank or a comment after normalization; in particular when
  it has no line). A vocabulary that was loaded is non-empty and free of duplicates, and
  index, the only handler that returns the globals, returns them with the same vocabulary;
  check returns no globals. For some source with words loading succeeds.
\<close>

theorem LoadVocabulary_rejects_empty:
  "LoadVocabulary nrm is_comment None = Inl LoadError
   \<and> ((\<forall>l\<in>set lines. nrm l = [] \<or> is_comment (nrm l)) \<longrightarrow>
        LoadVocabulary nrm is_comment (Some lines) = Inl LoadError)
   \<and> LoadVocabulary nrm is_comment (Some []) = Inl LoadError
   \<and> (LoadVocabulary nrm is_comment source = Inr v \<longrightarrow>
        as_list v \<noteq> [] \<and> distinct (as_list v) \<and>
        (\<forall>src sess sess' gl gl'. WORDS gl = v \<longrightarrow> index src gl sess = Inr (sess', gl') \<longrightarrow> WORDS gl' = v))
   \<and> (\<exists>v. LoadVocabulary (filter (\<lambda>c. c \<noteq> CHR '' '')) (\<lambda>w. take 1 w = ''#'')
             (Some ['' cat '', [], ''# note'', ''act'', ''cat'']) = Inr v
           \<and> as_list v = [''act'', ''cat''])"
proof (intro conjI impI)
  show "LoadVocabulary nrm is_comment None = Inl LoadError"
    by (simp add: LoadVocabulary_def)
  show "LoadVocabulary nrm is_comment (Some []) = Inl LoadError"
    by (simp add: LoadVocabulary_def)
  show "\<exists>v. LoadVocabulary (filter (\<lambda>c. c \<noteq> CHR '' '')) (\<lambda>w. take 1 w = ''#'')
             (Some ['' cat '', [], ''# note'', ''act'', ''cat'']) = Inr v
           \<and> as_list v = [''act'', ''cat'']"
    by (simp add: LoadVocabulary_def as_list_def)
next
  assume "\<forall>l\<in>set lines. nrm l = [] \<or> is_comment (nrm l)"
  then have "filter (\<lambda>w. w \<noteq> [] \<and> \<not> is_comment w) (map nrm lines) = []"
    by (auto simp: filter_empty_conv)
  then show "LoadVocabulary nrm is_comment (Some lines) = Inl LoadError"
    by (simp add: LoadVocabulary_def)
next
  assume ok: "LoadVocabulary nrm is_comment source = Inr v"
  then show "as_list v \<noteq> []"
    by (auto simp: LoadVocabulary_def as_list_def Let_def split: option.splits if_splits)
  from ok show "distinct (as_list v)"
    by (auto simp: LoadVocabulary_def as_list_def Let_def split: option.splits if_splits)
  show "\<forall>src sess sess' gl gl'. WORDS gl = v \<longrightarrow> index src gl sess = Inr (sess', gl') \<longrightarrow> WORDS gl' = v"
    by (auto simp: index_def Let_def split: sum.splits if_splits)
qed

text \<open>
  Instances: a source of a blank line and a comment is rejected; a source with the one
  word "cat" is loaded.
\<close>

theorem LoadVocabulary_rejects_empty_witness:
  "filter (\<lambda>c. c \<noteq> CHR '' '') ''  '' = []
   \<and> take 1 (filter (\<lambda>c. c \<noteq> CHR '' '') ''# note'') = ''#''
   \<and> LoadVocabulary (filter (\<lambda>c. c \<noteq> CHR '' '')) (\<lambda>w. take 1 w = ''#'')
        (Some [''  '', ''# note'']) = Inl LoadError
   \<and> LoadVocabulary (filter (\<lambda>c. c \<noteq> CHR '' '')) (\<lambda>w. take 1 w = ''#'')
        (Some [''cat'']) = Inr \<lparr>words = [''cat''], normalise = filter (\<lambda>c. c \<noteq> CHR '' '')\<rparr>
   \<and> as_list \<lparr>words = [''cat''], normalise = filter (\<lambda>c. c \<noteq> CHR '' '')\<rparr> \<noteq> []"
proof -
  note t = LoadVocabulary_rejects_empty [of "filter (\<lambda>c. c \<noteq> CHR '' '')" "\<lambda>w. take 1 w = ''#''"
        "[''  '', ''# note'']" "Some [''cat'']"
        "\<lparr>words = [''cat''], normalise = filter (\<lambda>c. c \<noteq> CHR '' '')\<rparr>"]
  have ok: "LoadVocabulary (filter (\<lambda>c. c \<noteq> CHR '' '')) (\<lambda>w. take 1 w = ''#'')
        (Some [''cat'']) = Inr \<lparr>words = [''cat''], normalise = filter (\<lambda>c. c \<noteq> CHR '' '')\<rparr>"
    by (simp add: LoadVocabulary_def)
  have h: "\<forall>l\<in>set [''  '', ''# note'']. filter (\<lambda>c. c \<noteq> CHR '' '') l = []
       \<or> take 1 (filter (\<lambda>c. c \<noteq> CHR '' '') l) = ''#''"
    by simp
  from t h have r: "LoadVocabulary (filter (\<lambda>c. c \<noteq> CHR '' '')) (\<lambda>w. take 1 w = ''#'')
        (Some [''  '', ''# note'']) = Inl LoadError"
    by blast
  from t ok have n: "as_list \<lparr>words = [''cat''], normalise = filter (\<lambda>c. c \<noteq> CHR '' '')\<rparr> \<noteq> []"
    by blast
  from r ok n show ?thesis by simp
qed

end
